theory Spec2Isabelle
  imports Complex_Main "HOL-Library.Multiset"
begin

section \<open>RoboGrammar: examples/design_search/results.py\<close>

text \<open>
  The script turns rows of a search log into pictures of robots. This theory embeds
  its three functions, \<open>make_robot_from_rule_sequence\<close>, \<open>get_robot_image\<close> and
  \<open>main\<close>. Python exceptions are values of type \<open>error\<close>; a function that can raise
  returns \<open>error + 'a\<close>, and a loop that saves files returns the files saved so far
  together with the exception that ended it, if any.
\<close>

subsection \<open>Python values\<close>

datatype error = IndexError | KeyError | ValueError

text \<open>
  \<open>xs[i]\<close> on a Python list: an index from \<open>-len(xs)\<close> to \<open>-1\<close> counts from the end,
  an index outside \<open>-len(xs) .. len(xs) - 1\<close> raises IndexError.
\<close>

definition py_index :: "'a list \<Rightarrow> int \<Rightarrow> error + 'a" where
  "py_index xs i =
     (let n = int (length xs) in
      if 0 \<le> i \<and> i < n then Inr (xs ! nat i)
      else if - n \<le> i \<and> i < 0 then Inr (xs ! nat (n + i))
      else Inl IndexError)"

text \<open>\<open>range(a, b)\<close>: the integers from \<open>a\<close> up to, and without, \<open>b\<close>.\<close>

definition py_range :: "int \<Rightarrow> int \<Rightarrow> int list" where
  "py_range a b = [a..b - 1]"

text \<open>
  \<open>range(a, b, s)\<close> and \<open>np.arange(a, b, s)\<close> for a positive step: \<open>a, a + s, ...\<close>
  as long as the value is below \<open>b\<close>.
\<close>

function arange :: "int \<Rightarrow> int \<Rightarrow> int \<Rightarrow> int list" where
  "arange a b s = (if 0 < s \<and> a < b then a # arange (a + s) b s else [])"
  by pat_completeness auto
termination
  by (relation "measure (\<lambda>(a, b, s). nat (b - a))") auto

declare arange.simps [simp del]

text \<open>
  A \<open>for\<close> loop whose body may raise. The body takes the loop variable and the state
  and returns the new state and \<open>None\<close>, or the state it had reached and the exception.
  The loop stops at the first exception, which leaves the loop.
\<close>

fun for_each :: "('a \<Rightarrow> 's \<Rightarrow> 's \<times> error option) \<Rightarrow> 'a list \<Rightarrow> 's \<Rightarrow> 's \<times> error option" where
  "for_each body [] s = (s, None)"
| "for_each body (x # xs) s =
     (case body x s of
        (s', None) \<Rightarrow> for_each body xs s'
      | (s', Some e) \<Rightarrow> (s', Some e))"

subsection \<open>The collaborators\<close>

text \<open>
  The graph grammar lives in \<open>pyrobotdesign\<close> and \<open>design_search\<close>, outside the script.
  The script only calls it, so the model takes it as a record of functions over
  abstract graphs \<open>'g\<close>, rules \<open>'r\<close>, patterns \<open>'p\<close>, matches \<open>'m\<close> and robots \<open>'b\<close>.
\<close>

record ('g, 'r, 'p, 'm, 'b) grammar =
  make_initial_graph :: "'g"
  lhs :: "'r \<Rightarrow> 'p"
  find_matches :: "'p \<Rightarrow> 'g \<Rightarrow> 'm list"
  apply_rule :: "'r \<Rightarrow> 'g \<Rightarrow> 'm \<Rightarrow> 'g"
  build_normalized_robot :: "'g \<Rightarrow> 'b"

subsection \<open>make_robot_from_rule_sequence\<close>

text \<open>
  The loop over \<open>rule_sequence\<close>. \<open>rules[r]\<close> is read before the matcher is called, so
  an index out of range raises whatever the graph is. \<open>if matches:\<close> tests that the
  list is not empty, and \<open>matches[0]\<close> is then its head.
\<close>

fun apply_rule_sequence ::
  "('g, 'r, 'p, 'm, 'b) grammar \<Rightarrow> 'r list \<Rightarrow> 'g \<Rightarrow> int list \<Rightarrow> error + 'g" where
  "apply_rule_sequence G rules graph [] = Inr graph"
| "apply_rule_sequence G rules graph (r # rs) =
     (case py_index rules r of
        Inl e \<Rightarrow> Inl e
      | Inr rule \<Rightarrow>
          (case find_matches G (lhs G rule) graph of
             [] \<Rightarrow> apply_rule_sequence G rules graph rs
           | m # ms \<Rightarrow> apply_rule_sequence G rules (apply_rule G rule graph m) rs))"

definition make_robot_from_rule_sequence ::
  "('g, 'r, 'p, 'm, 'b) grammar \<Rightarrow> int list \<Rightarrow> 'r list \<Rightarrow> error + 'b" where
  "make_robot_from_rule_sequence G rule_sequence rules =
     (case apply_rule_sequence G rules (make_initial_graph G) rule_sequence of
        Inl e \<Rightarrow> Inl e
      | Inr graph \<Rightarrow> Inr (build_normalized_robot G graph))"

text \<open>
  The builder as the specification words it: one step per rule index, leaving the graph
  as it is when the rule has no match and rewriting at the first match otherwise.
\<close>

definition spec_step :: "('g, 'r, 'p, 'm, 'b) grammar \<Rightarrow> 'r list \<Rightarrow> int \<Rightarrow> 'g \<Rightarrow> 'g" where
  "spec_step G rules r graph =
     (let matches = find_matches G (lhs G (rules ! nat r)) graph in
      if matches = [] then graph else apply_rule G (rules ! nat r) graph (hd matches))"

definition spec_build :: "('g, 'r, 'p, 'm, 'b) grammar \<Rightarrow> int list \<Rightarrow> 'r list \<Rightarrow> 'b" where
  "spec_build G rule_sequence rules =
     build_normalized_robot G (fold (spec_step G rules) rule_sequence (make_initial_graph G))"

text \<open>
  A small grammar to run the definitions on: graphs are lists of numbers, starting
  from \<open>[1]\<close>; a rule is a number that matches a graph at every position holding a
  smaller number and, applied, is put in front of the graph; the robot of a graph is
  the sum of its numbers. With the rules \<open>[1, 2]\<close>, rule 0 never matches.
\<close>

definition toy_grammar :: "(int list, int, int, nat, int) grammar" where
  "toy_grammar =
     \<lparr> make_initial_graph = [1],
       lhs = (\<lambda>r. r),
       find_matches = (\<lambda>p g. filter (\<lambda>i. g ! i < p) [0..<length g]),
       apply_rule = (\<lambda>r g m. r # g),
       build_normalized_robot = sum_list \<rparr>"

subsection \<open>The log and the saved files\<close>

text \<open>
  A row of the log read by \<open>pd.read_csv(log_file, index_col=0)\<close>: the first column is
  the index of the frame (\<open>reset_index\<close> names it \<open>iteration\<close>), \<open>rule_seq\<close> is the
  list that \<open>ast.literal_eval\<close> reads from the text of the column, \<open>result\<close> the score.
  Scores are compared, never computed with, so exact rationals stand for them.
\<close>

record row =
  iteration :: int
  rule_seq :: "int list"
  result :: rat

text \<open>
  The three file name patterns \<open>iteration_{:05}.png\<close>, \<open>sorted_{:05}.png\<close> and
  \<open>terrain_{task}.png\<close>, by the value that fills the pattern. A saved file is its
  name with the robot it shows (\<open>None\<close> for the picture of the terrain alone).
\<close>

datatype file_name = Iteration_png int | Sorted_png int | Terrain_png string

type_synonym 'b saved = "(file_name \<times> 'b option) list"

text \<open>
  \<open>iteration_df['rule_seq'][index]\<close> finds the row by the label \<open>index\<close> in the index
  column: KeyError when no row has it; when several have it the lookup gives a
  Series, on which \<open>ast.literal_eval\<close> raises ValueError.
\<close>

definition rule_seq_at :: "row list \<Rightarrow> int \<Rightarrow> error + int list" where
  "rule_seq_at iteration_df index =
     (case filter (\<lambda>r. iteration r = index) iteration_df of
        [] \<Rightarrow> Inl KeyError
      | [r] \<Rightarrow> Inr (rule_seq r)
      | _ \<Rightarrow> Inl ValueError)"

text \<open>
  \<open>block.ix[i]\<close> after \<open>reset_index()\<close>: the labels are the positions \<open>0 .. len - 1\<close>,
  any other label raises KeyError.
\<close>

definition ix :: "row list \<Rightarrow> int \<Rightarrow> error + row" where
  "ix block i = (if 0 \<le> i \<and> i < int (length block) then Inr (block ! nat i) else Inl KeyError)"

text \<open>\<open>iteration_df[a:b]\<close>, rows by position, for \<open>0 \<le> a\<close> and \<open>0 \<le> b\<close>.\<close>

definition row_slice :: "row list \<Rightarrow> int \<Rightarrow> int \<Rightarrow> row list" where
  "row_slice iteration_df a b = take (nat b - nat a) (drop (nat a) iteration_df)"

text \<open>
  The four lines shared by the three loops: build the robot, render it, save the
  picture. Rendering and writing are done by collaborators that the model takes to
  succeed; the only exception is the one of the builder.
\<close>

definition save_robot_image ::
  "('g, 'r, 'p, 'm, 'b) grammar \<Rightarrow> 'r list \<Rightarrow> file_name \<Rightarrow> int list \<Rightarrow> 'b saved
     \<Rightarrow> 'b saved \<times> error option" where
  "save_robot_image G rules name rule_sequence saved =
     (case make_robot_from_rule_sequence G rule_sequence rules of
        Inl e \<Rightarrow> (saved, Some e)
      | Inr robot \<Rightarrow> (saved @ [(name, Some robot)], None))"

subsection \<open>main, type iterations\<close>

text \<open>
  The inner loop of the types \<open>iterations\<close> and \<open>percentiles\<close> runs over
  \<open>range(start_index, end_index)\<close>, computed from \<open>mid_index\<close> and the length \<open>n\<close>
  of the log by the same two lines in both. The nested loops take any body, so that
  the body can also just record its index.
\<close>

definition window_indices :: "int \<Rightarrow> int \<Rightarrow> int list" where
  "window_indices mid_index n =
     (let offset = 10;
          start_index = max (mid_index - offset) 0;
          end_index = min (mid_index + offset) n
      in py_range start_index end_index)"

definition iterations_loop ::
  "(int \<Rightarrow> 's \<Rightarrow> 's \<times> error option) \<Rightarrow> int \<Rightarrow> 's \<Rightarrow> 's \<times> error option" where
  "iterations_loop body n s =
     for_each (\<lambda>mid_index. for_each body (window_indices mid_index n))
       (arange 0 (n + 1) 1000) s"

definition save_iteration ::
  "('g, 'r, 'p, 'm, 'b) grammar \<Rightarrow> 'r list \<Rightarrow> row list \<Rightarrow> int \<Rightarrow> 'b saved
     \<Rightarrow> 'b saved \<times> error option" where
  "save_iteration G rules iteration_df index saved =
     (case rule_seq_at iteration_df index of
        Inl e \<Rightarrow> (saved, Some e)
      | Inr rule_sequence \<Rightarrow> save_robot_image G rules (Iteration_png index) rule_sequence saved)"

text \<open>The body that only records the loop variable, to read off what a loop visits.\<close>

definition record_visit :: "'a \<Rightarrow> 'a list \<Rightarrow> 'a list \<times> error option" where
  "record_visit x visited = (visited @ [x], None)"

definition iterations_indices :: "int \<Rightarrow> int list" where
  "iterations_indices n = fst (iterations_loop record_visit n [])"

subsection \<open>main, type iterations_top\<close>

text \<open>
  \<open>sort_values(by='result', ascending=False)\<close> is pandas code; the script passes no
  \<open>kind\<close>, so it is the default sort of pandas, which is not the stable one. The model
  takes the sort as the parameter \<open>sort_values\<close>; theorems say what they need of it.
  Rows \<open>0 .. 9\<close> of the sorted block are read one after the other.
\<close>

definition top_block_loop ::
  "(row \<Rightarrow> 's \<Rightarrow> 's \<times> error option) \<Rightarrow> row list \<Rightarrow> 's \<Rightarrow> 's \<times> error option" where
  "top_block_loop body block s =
     for_each
       (\<lambda>i s. case ix block i of Inl e \<Rightarrow> (s, Some e) | Inr row \<Rightarrow> body row s)
       (py_range 0 10) s"

definition iterations_top_loop ::
  "(row \<Rightarrow> 's \<Rightarrow> 's \<times> error option) \<Rightarrow> (row list \<Rightarrow> row list) \<Rightarrow> row list \<Rightarrow> 's
     \<Rightarrow> 's \<times> error option" where
  "iterations_top_loop body sort_values iteration_df s =
     (let n = int (length iteration_df); block_size = 1000 in
      for_each
        (\<lambda>start_index.
           let end_index = min (start_index + block_size) n;
               block = row_slice iteration_df start_index end_index
           in top_block_loop body (sort_values block))
        (arange 0 n block_size) s)"

definition save_top ::
  "('g, 'r, 'p, 'm, 'b) grammar \<Rightarrow> 'r list \<Rightarrow> row \<Rightarrow> 'b saved \<Rightarrow> 'b saved \<times> error option" where
  "save_top G rules row saved =
     save_robot_image G rules (Iteration_png (iteration row)) (rule_seq row) saved"

text \<open>The rows that the loop reads, and the exception of \<open>ix\<close> that ends it, if any.\<close>

definition iterations_top_rows ::
  "(row list \<Rightarrow> row list) \<Rightarrow> row list \<Rightarrow> row list \<times> error option" where
  "iterations_top_rows sort_values iteration_df =
     iterations_top_loop record_visit sort_values iteration_df []"

text \<open>
  Two sorts by descending score to run the loop with: one keeps rows of equal score in
  their order, the other turns them round.
\<close>

definition sort_keep_ties :: "row list \<Rightarrow> row list" where
  "sort_keep_ties block = sort_key (\<lambda>r. - result r) block"

definition sort_turn_ties :: "row list \<Rightarrow> row list" where
  "sort_turn_ties block = rev (sort_key result block)"

subsection \<open>main, type percentiles\<close>

text \<open>
  The percentiles and the centre index are computed in binary64. The model computes
  them exactly: a binary64 number is the rational it denotes, and an operation is the
  exact operation followed by rounding to the nearest binary64 number, ties to the even
  mantissa (\<open>float64\<close>; the numbers here are far from the subnormal and the overflow
  range). Python's \<open>round\<close> is to the nearest integer, ties to the even one.
\<close>

definition round_half_even :: "rat \<Rightarrow> int" where
  "round_half_even x =
     (let f = \<lfloor>x\<rfloor>; d = x - of_int f in
      if d < 1 / 2 then f else if 1 / 2 < d then f + 1 else if even f then f else f + 1)"

fun bit_length :: "nat \<Rightarrow> nat" where
  "bit_length n = (if n = 0 then 0 else Suc (bit_length (n div 2)))"

declare bit_length.simps [simp del]

text \<open>For \<open>0 < x\<close>, the exponent \<open>e\<close> with \<open>2 ^ e \<le> x < 2 ^ (e + 1)\<close>.\<close>

definition float_exponent :: "rat \<Rightarrow> int" where
  "float_exponent x =
     (if 1 \<le> x then int (bit_length (nat \<lfloor>x\<rfloor>)) - 1
      else - int (bit_length (nat (\<lceil>1 / x\<rceil> - 1))))"

definition pow2 :: "int \<Rightarrow> rat" where
  "pow2 e = (if 0 \<le> e then 2 ^ nat e else 1 / 2 ^ nat (- e))"

definition float64 :: "rat \<Rightarrow> rat" where
  "float64 x =
     (if x = 0 then 0
      else let ulp = pow2 (float_exponent \<bar>x\<bar> - 52)
           in of_int (round_half_even (x / ulp)) * ulp)"

text \<open>
  \<open>np.linspace(0.0, 1.0, 11)\<close>: the step is \<open>1.0 / 10\<close>, entry \<open>k\<close> is \<open>k * step\<close>, and
  the last entry is set to the end point.
\<close>

definition percentiles :: "rat list" where
  "percentiles =
     map (\<lambda>k. if k = 10 then 1 else float64 (of_int k * float64 (1 / 10))) [0..10]"

text \<open>\<open>int(round(percentile * (len(iteration_df) - 1)))\<close>\<close>

definition mid_index_of :: "rat \<Rightarrow> int \<Rightarrow> int" where
  "mid_index_of percentile n = round_half_even (float64 (percentile * float64 (of_int (n - 1))))"

text \<open>
  \<open>iteration_df.sort_values(by='result')\<close> returns a sorted copy, which the script
  drops: the frame that the loop reads is the log as loaded, so the sort is no part
  of the model.
\<close>

definition percentiles_loop ::
  "(int \<Rightarrow> 's \<Rightarrow> 's \<times> error option) \<Rightarrow> int \<Rightarrow> 's \<Rightarrow> 's \<times> error option" where
  "percentiles_loop body n s =
     for_each (\<lambda>percentile. for_each body (window_indices (mid_index_of percentile n) n))
       percentiles s"

definition percentiles_indices :: "int \<Rightarrow> int list" where
  "percentiles_indices n = fst (percentiles_loop record_visit n [])"

definition save_sorted ::
  "('g, 'r, 'p, 'm, 'b) grammar \<Rightarrow> 'r list \<Rightarrow> row list \<Rightarrow> int \<Rightarrow> 'b saved
     \<Rightarrow> 'b saved \<times> error option" where
  "save_sorted G rules iteration_df index saved =
     (case rule_seq_at iteration_df index of
        Inl e \<Rightarrow> (saved, Some e)
      | Inr rule_sequence \<Rightarrow> save_robot_image G rules (Sorted_png index) rule_sequence saved)"

subsection \<open>main\<close>

text \<open>
  \<open>args.type\<close> is \<open>None\<close> when the option is not given. The first \<open>if\<close> stands alone,
  the second one heads the \<open>elif\<close> chain, and the chain has no \<open>else\<close>. The result is
  the list of files saved and the exception that ended the run, if any.
\<close>

definition main ::
  "('g, 'r, 'p, 'm, 'b) grammar \<Rightarrow> (row list \<Rightarrow> row list) \<Rightarrow> 'r list \<Rightarrow> row list \<Rightarrow> string
     \<Rightarrow> string option \<Rightarrow> 'b saved \<times> error option" where
  "main G sort_values rules iteration_df task type =
     (let n = int (length iteration_df) in
      case (if type = Some ''iterations''
            then iterations_loop (save_iteration G rules iteration_df) n []
            else ([], None)) of
        (saved, Some e) \<Rightarrow> (saved, Some e)
      | (saved, None) \<Rightarrow>
          if type = Some ''iterations_top''
          then iterations_top_loop (save_top G rules) sort_values iteration_df saved
          else if type = Some ''percentiles''
          then percentiles_loop (save_sorted G rules iteration_df) n saved
          else if type = Some ''terrain''
          then (saved @ [(Terrain_png task, None)], None)
          else (saved, None))"

text \<open>A log of two rows whose scores are not in ascending order, to run \<open>main\<close> on.\<close>

definition unsorted_log :: "row list" where
  "unsorted_log =
     [\<lparr> iteration = 0, rule_seq = [1], result = 5 \<rparr>,
      \<lparr> iteration = 1, rule_seq = [], result = 1 \<rparr>]"

text \<open>
  A log of one full block of 1000 rows that all have the same score, a log of twelve
  rows with rising scores, and a log of three rows whose second row holds a rule index
  that no list of two rules has.
\<close>

definition tied_log :: "row list" where
  "tied_log = map (\<lambda>i. \<lparr> iteration = i, rule_seq = [], result = 0 \<rparr>) [0..999]"

definition scored_log :: "row list" where
  "scored_log = map (\<lambda>i. \<lparr> iteration = i, rule_seq = [1], result = of_int i \<rparr>) [0..11]"

definition broken_log :: "row list" where
  "broken_log =
     [\<lparr> iteration = 0, rule_seq = [0, 1], result = 3 \<rparr>,
      \<lparr> iteration = 1, rule_seq = [5], result = 2 \<rparr>,
      \<lparr> iteration = 2, rule_seq = [1], result = 1 \<rparr>]"

subsection \<open>get_robot_image: the camera\<close>

text \<open>
  The simulation gives the translation of the base link (\<open>base_tf[:3,3]\<close>) and the
  world bounding box of the robot placed in it. Coordinates and angles are real
  numbers here, which the binary64 values of the script approximate.
\<close>

type_synonym vec3 = "real \<times> real \<times> real"

record camera_params =
  position :: vec3
  yaw :: real
  pitch :: real
  distance :: real

record 'b simulation =
  base_translation :: "'b \<Rightarrow> vec3"
  robot_world_aabb :: "'b \<Rightarrow> vec3 \<times> vec3"

definition vec_sub :: "vec3 \<Rightarrow> vec3 \<Rightarrow> vec3" where
  "vec_sub u v = (case (u, v) of ((a, b, c), (x, y, z)) \<Rightarrow> (a - x, b - y, c - z))"

definition linalg_norm :: "vec3 \<Rightarrow> real" where
  "linalg_norm v = (case v of (x, y, z) \<Rightarrow> sqrt (x\<^sup>2 + y\<^sup>2 + z\<^sup>2))"

definition get_robot_image_camera :: "'b simulation \<Rightarrow> 'b option \<Rightarrow> camera_params" where
  "get_robot_image_camera sim robot =
     (case robot of
        Some b \<Rightarrow>
          (let (lower, upper) = robot_world_aabb sim b in
           \<lparr> position = base_translation sim b,
             yaw = pi / 3,
             pitch = - pi / 6,
             distance = 2 * linalg_norm (vec_sub upper lower) \<rparr>)
      | None \<Rightarrow>
          \<lparr> position = (1, 0, 0),
            yaw = - pi / 3,
            pitch = - pi / 6,
            distance = 5 \<rparr>)"

section \<open>Building the robot\<close>

text \<open>
  The builder raises nothing but the IndexError of \<open>rules[r]\<close>, and raises it exactly
  when the rule sequence holds an index outside \<open>-L .. L - 1\<close>.
\<close>

lemma py_index_in_range:
  "py_index xs i =
     (if - int (length xs) \<le> i \<and> i < int (length xs)
      then Inr (xs ! nat (if i < 0 then int (length xs) + i else i))
      else Inl IndexError)"
  by (simp add: py_index_def Let_def)

lemma apply_rule_sequence_fold:
  "\<forall>r\<in>set rs. 0 \<le> r \<and> r < int (length rules) \<Longrightarrow>
   apply_rule_sequence G rules graph rs = Inr (fold (spec_step G rules) rs graph)"
proof (induction rs arbitrary: graph)
  case Nil
  show ?case by simp
next
  case (Cons r rs)
  then have r: "0 \<le> r" "r < int (length rules)"
    and rest: "\<forall>r\<in>set rs. 0 \<le> r \<and> r < int (length rules)"
    by simp_all
  show ?case
    using r Cons.IH [OF rest]
    by (cases "find_matches G (lhs G (rules ! nat r)) graph")
       (simp_all add: py_index_def spec_step_def)
qed

lemma apply_rule_sequence_error:
  "apply_rule_sequence G rules graph rs = Inl e \<Longrightarrow> e = IndexError"
proof (induction rs arbitrary: graph)
  case Nil
  then show ?case by simp
next
  case (Cons r rs)
  then show ?case
    by (auto simp: py_index_in_range split: if_splits list.splits)
qed

lemma apply_rule_sequence_fails_iff:
  "isl (apply_rule_sequence G rules graph rs) \<longleftrightarrow>
   (\<exists>r\<in>set rs. int (length rules) \<le> r \<or> r < - int (length rules))"
proof (induction rs arbitrary: graph)
  case Nil
  show ?case by simp
next
  case (Cons r rs)
  show ?case
    by (auto simp: py_index_in_range Cons.IH split: list.splits)
qed

lemma make_robot_error:
  "make_robot_from_rule_sequence G rs rules = Inl e \<Longrightarrow> e = IndexError"
  by (auto simp: make_robot_from_rule_sequence_def split: sum.splits
           dest: apply_rule_sequence_error)

lemma make_robot_fails_iff:
  "make_robot_from_rule_sequence G rs rules = Inl IndexError \<longleftrightarrow>
   (\<exists>r\<in>set rs. int (length rules) \<le> r \<or> r < - int (length rules))"
proof -
  have "make_robot_from_rule_sequence G rs rules = Inl IndexError \<longleftrightarrow>
        isl (apply_rule_sequence G rules (make_initial_graph G) rs)"
    by (auto simp: make_robot_from_rule_sequence_def split: sum.splits
             dest: apply_rule_sequence_error)
  then show ?thesis by (simp add: apply_rule_sequence_fails_iff)
qed

text \<open>
  C8. When every index of the rule sequence is in range, the builder returns the robot
  that the specification describes: starting from the initial graph it goes through the
  indices in order, keeps the graph when the rule has no match, rewrites it at the first
  match of the matcher otherwise, and normalizes the last graph. No error is raised.
\<close>

theorem make_robot_follows_spec:
  assumes "\<forall>r\<in>set rule_sequence. 0 \<le> r \<and> r < int (length rules)"
  shows "make_robot_from_rule_sequence G rule_sequence rules =
         Inr (spec_build G rule_sequence rules)"
  by (simp add: make_robot_from_rule_sequence_def spec_build_def
        apply_rule_sequence_fold [OF assms])

theorem make_robot_follows_spec_witness:
  "make_robot_from_rule_sequence toy_grammar [0, 1, 0] [1, 2] = Inr 3 \<and>
   spec_build toy_grammar [0, 1, 0] [1, 2] = 3"
proof -
  have h: "\<forall>r\<in>set [0, 1, 0 :: int]. 0 \<le> r \<and> r < int (length [1, 2 :: int])"
    by simp
  have "spec_build toy_grammar [0, 1, 0] [1, 2] = 3"
    by (simp add: spec_build_def spec_step_def toy_grammar_def)
  with h make_robot_follows_spec [OF h, of toy_grammar] show ?thesis
    by simp
qed

text \<open>
  C9. A rule index \<open>r\<close> from \<open>-L\<close> to \<open>-1\<close>, for a rule list of length \<open>L\<close>, is no
  error: \<open>rules[r]\<close> is the rule at position \<open>L + r\<close>. The lookup raises IndexError
  exactly when \<open>L \<le> r\<close> or \<open>r < -L\<close>, and the builder fails, with IndexError, exactly
  when the rule sequence holds such an index.
\<close>

theorem negative_rule_index_counts_from_end:
  "(- int (length rules) \<le> r \<and> r \<le> - 1 \<longrightarrow>
      py_index rules r = Inr (rules ! nat (int (length rules) + r))) \<and>
   (py_index rules r = Inl IndexError \<longleftrightarrow> int (length rules) \<le> r \<or> r < - int (length rules)) \<and>
   (make_robot_from_rule_sequence G rule_sequence rules = Inl IndexError \<longleftrightarrow>
      (\<exists>r\<in>set rule_sequence. int (length rules) \<le> r \<or> r < - int (length rules))) \<and>
   ((\<forall>r\<in>set rule_sequence. - int (length rules) \<le> r \<and> r \<le> - 1) \<longrightarrow>
      \<not> isl (make_robot_from_rule_sequence G rule_sequence rules))"
proof -
  have "\<not> isl (make_robot_from_rule_sequence G rule_sequence rules)"
    if "\<forall>r\<in>set rule_sequence. - int (length rules) \<le> r \<and> r \<le> - 1"
  proof -
    from that have "\<not> isl (apply_rule_sequence G rules (make_initial_graph G) rule_sequence)"
      by (fastforce simp: apply_rule_sequence_fails_iff)
    then show ?thesis
      by (cases "apply_rule_sequence G rules (make_initial_graph G) rule_sequence")
         (simp_all add: make_robot_from_rule_sequence_def)
  qed
  then show ?thesis
    by (auto simp: py_index_in_range make_robot_fails_iff)
qed

theorem negative_rule_index_counts_from_end_witness:
  "- int (length [1, 2 :: int]) \<le> - 1 \<and> (- 1 :: int) \<le> - 1 \<and>
   py_index [1, 2 :: int] (- 1) = Inr 2 \<and>
   make_robot_from_rule_sequence toy_grammar [- 1, - 2] [1, 2] = Inr 3 \<and>
   make_robot_from_rule_sequence toy_grammar [- 1, - 3] [1, 2] = Inl IndexError"
proof -
  have a: "make_robot_from_rule_sequence toy_grammar [- 1, - 2] [1, 2] = Inr 3"
    by (simp add: make_robot_from_rule_sequence_def py_index_def toy_grammar_def)
  have b: "\<exists>r\<in>set [- 1, - 3 :: int].
             int (length [1, 2 :: int]) \<le> r \<or> r < - int (length [1, 2 :: int])"
    by simp
  show ?thesis
    using negative_rule_index_counts_from_end [of "[1, 2 :: int]" "- 1" toy_grammar "[- 1, - 2]"]
      negative_rule_index_counts_from_end [of "[1, 2 :: int]" "- 1" toy_grammar "[- 1, - 3]"]
      a b
    by simp
qed

section \<open>Loops\<close>

text \<open>
  A loop over a list of lists is a loop over their concatenation, a loop whose body
  only records visits all of its list, and a loop ends with the first exception.
\<close>

lemma for_each_append:
  "for_each body (xs @ ys) s =
     (case for_each body xs s of
        (s', None) \<Rightarrow> for_each body ys s'
      | (s', Some e) \<Rightarrow> (s', Some e))"
  by (induction xs arbitrary: s) (auto split: prod.splits option.splits)

lemma for_each_concat:
  "for_each (\<lambda>x. for_each body (g x)) xs s = for_each body (concat (map g xs)) s"
  by (induction xs arbitrary: s) (auto simp: for_each_append split: prod.splits option.splits)

lemma for_each_record_visit: "for_each record_visit xs v = (v @ xs, None)"
  by (induction xs arbitrary: v) (auto simp: record_visit_def)

lemma for_each_stops:
  assumes "for_each body before s = (s1, None)" and "body x s1 = (s2, Some e)"
  shows "for_each body (before @ x # after) s = (s2, Some e)"
  using assms by (simp add: for_each_append)

lemma set_arange:
  "0 < s \<Longrightarrow> set (arange a b s) = {m. a \<le> m \<and> m < b \<and> (m - a) mod s = 0}"
proof (induction a b s rule: arange.induct)
  case (1 a b s)
  show ?case
  proof (cases "a < b")
    case False
    then show ?thesis by (auto simp: arange.simps [of a b s])
  next
    case True
    have step: "set (arange (a + s) b s) = {m. a + s \<le> m \<and> m < b \<and> (m - (a + s)) mod s = 0}"
      using 1 True by simp
    have "{m. a \<le> m \<and> m < b \<and> (m - a) mod s = 0} =
          insert a {m. a + s \<le> m \<and> m < b \<and> (m - (a + s)) mod s = 0}" (is "?L = ?R")
    proof (rule set_eqI)
      fix m
      have "m - (a + s) = (m - a) - s" by simp
      then have eq: "(m - (a + s)) mod s = (m - a) mod s"
        by (simp only: minus_mod_self2)
      have "a + s \<le> m" if "a < m" "(m - a) mod s = 0"
      proof -
        from that have "s dvd (m - a)" "0 < m - a" by (simp_all add: dvd_eq_mod_eq_0)
        then have "s \<le> m - a" by (rule zdvd_imp_le)
        then show ?thesis by simp
      qed
      then show "m \<in> ?L \<longleftrightarrow> m \<in> ?R"
        using True \<open>0 < s\<close> eq by auto
    qed
    then show ?thesis
      using True \<open>0 < s\<close> step by (simp add: arange.simps [of a b s])
  qed
qed

lemma iterations_indices_concat:
  "iterations_indices n = concat (map (\<lambda>m. window_indices m n) (arange 0 (n + 1) 1000))"
  by (simp add: iterations_indices_def iterations_loop_def for_each_concat for_each_record_visit)

lemma set_window_indices:
  "set (window_indices m n) = {i. max (m - 10) 0 \<le> i \<and> i < min (m + 10) n}"
  by (auto simp: window_indices_def py_range_def Let_def)

lemma percentiles_indices_concat:
  "percentiles_indices n =
     concat (map (\<lambda>m. window_indices m n) (map (\<lambda>p. mid_index_of p n) percentiles))"
  by (simp add: percentiles_indices_def percentiles_loop_def for_each_concat for_each_record_visit
        o_def)

lemma main_iterations:
  "main G sort_values rules iteration_df task (Some ''iterations'') =
     for_each (save_iteration G rules iteration_df)
       (iterations_indices (int (length iteration_df))) []"
  by (simp add: main_def Let_def iterations_loop_def iterations_indices_concat for_each_concat
           split: prod.splits option.splits)

lemma main_percentiles:
  "main G sort_values rules iteration_df task (Some ''percentiles'') =
     for_each (save_sorted G rules iteration_df)
       (percentiles_indices (int (length iteration_df))) []"
  by (simp add: main_def Let_def percentiles_loop_def percentiles_indices_concat for_each_concat
        o_def)

lemma main_iterations_top:
  "main G sort_values rules iteration_df task (Some ''iterations_top'') =
     iterations_top_loop (save_top G rules) sort_values iteration_df []"
  by (simp add: main_def Let_def)

lemma window_indices_empty_log: "window_indices m 0 = []"
  by (simp add: window_indices_def py_range_def Let_def)

lemma arange_0_1: "arange 0 1 1000 = [0]"
  by (simp add: arange.simps)

lemma arange_0_0: "arange 0 0 1000 = []"
  by (simp add: arange.simps)

lemma concat_map_Nil: "concat (map (\<lambda>x. []) xs) = []"
  by (induction xs) simp_all

lemma main_empty_log:
  "main G sort_values rules [] task type =
     (if type = Some ''terrain'' then ([(Terrain_png task, None)], None) else ([], None))"
  by (simp add: main_def Let_def iterations_loop_def percentiles_loop_def iterations_top_loop_def
        window_indices_empty_log arange_0_1 arange_0_0 for_each_concat concat_map_Nil)

lemma main_other_type:
  "type \<noteq> Some ''iterations'' \<Longrightarrow> type \<noteq> Some ''iterations_top'' \<Longrightarrow>
   type \<noteq> Some ''percentiles'' \<Longrightarrow> type \<noteq> Some ''terrain'' \<Longrightarrow>
   main G sort_values rules iteration_df task type = ([], None)"
  by (simp add: main_def Let_def)

lemma iterations_indices_2500:
  "iterations_indices 2500 = [0..9] @ [990..1009] @ [1990..2009]"
  by (simp add: iterations_indices_concat arange.simps window_indices_def py_range_def)

lemma set_iterations_indices:
  "set (iterations_indices n) =
     {i. \<exists>m. 0 \<le> m \<and> m \<le> n \<and> m mod 1000 = 0 \<and> max (m - 10) 0 \<le> i \<and> i < min (m + 10) n}"
  by (auto simp: iterations_indices_concat set_arange set_window_indices)

section \<open>Evaluating the binary64 model\<close>

text \<open>
  The simplifier computes with the model once it can take the floor and the ceiling of
  a quotient of numerals.
\<close>

lemma rat_floor_quotient: "\<lfloor>numeral a / numeral b :: rat\<rfloor> = numeral a div numeral b"
  using floor_divide_of_int_eq [of "numeral a" "numeral b", where ?'a = rat] by simp

lemma rat_floor_neg_quotient:
  "\<lfloor>- (numeral a / numeral b) :: rat\<rfloor> = - numeral a div numeral b"
  using floor_divide_of_int_eq [of "- numeral a" "numeral b", where ?'a = rat] by simp

lemma rat_ceiling_quotient:
  "\<lceil>numeral a / numeral b :: rat\<rceil> = - (- numeral a div numeral b)"
  using ceiling_divide_eq_div [of "numeral a" "numeral b", where ?'a = rat] by simp

lemma rat_floor_unit_quotient: "\<lfloor>1 / numeral b :: rat\<rfloor> = 1 div numeral b"
  using floor_divide_of_int_eq [of 1 "numeral b", where ?'a = rat] by simp

lemma rat_floor_neg_unit_quotient: "\<lfloor>- (1 / numeral b) :: rat\<rfloor> = - 1 div numeral b"
  using floor_divide_of_int_eq [of "- 1" "numeral b", where ?'a = rat] by simp

lemma rat_floor_neg_one: "\<lfloor>- 1 :: rat\<rfloor> = - 1"
  using floor_of_int [of "- 1", where ?'a = rat] by simp

lemmas float_eval =
  float64_def float_exponent_def pow2_def round_half_even_def bit_length.simps Let_def
  rat_floor_quotient rat_floor_neg_quotient rat_ceiling_quotient
  rat_floor_unit_quotient rat_floor_neg_unit_quotient rat_floor_neg_one

text \<open>
  The binary64 number next to \<open>1 / 10\<close>, and with it the percentiles: the fourth, the
  seventh and the eighth are one unit in the last place above the binary64 numbers of
  \<open>0.3\<close>, \<open>0.6\<close> and \<open>0.7\<close>, as \<open>3 * 0.1\<close>, \<open>6 * 0.1\<close> and \<open>7 * 0.1\<close> are in Python.
\<close>

lemma float64_tenth: "float64 (1 / 10) = 3602879701896397 / 36028797018963968"
  by (simp add: float_eval)

lemma percentiles_eq: "percentiles = [0, 3602879701896397 / 36028797018963968,
  3602879701896397 / 18014398509481984, 1351079888211149 / 4503599627370496,
  3602879701896397 / 9007199254740992, 1 / 2,
  1351079888211149 / 2251799813685248, 6305039478318695 / 9007199254740992,
  3602879701896397 / 4503599627370496, 8106479329266893 / 9007199254740992,
  1]"
  by (simp add: percentiles_def float64_tenth upto_rec1) (simp add: float_eval)


text \<open>
  The centres for an empty log, for a log of two rows, and for a log of 16 rows, where the product \<open>0.30000000000000004 * 15\<close> lies above \<open>4.5\<close> and the
  centre is 5, not the 4 of exact arithmetic.
\<close>

lemma mid_indices_0:
  "map (\<lambda>p. mid_index_of p 0) percentiles = [0, 0, 0, 0, 0, 0, -1, -1, -1, -1, -1]"
  by (simp add: percentiles_eq mid_index_of_def) (simp add: float_eval)


lemma mid_indices_16:
  "map (\<lambda>p. mid_index_of p 16) percentiles = [0, 2, 3, 5, 6, 8, 9, 11, 12, 14, 15]"
  by (simp add: percentiles_eq mid_index_of_def) (simp add: float_eval)




lemma toy_robots:
  "make_robot_from_rule_sequence toy_grammar [1] [1, 2] = Inr 3"
  "make_robot_from_rule_sequence toy_grammar [] [1, 2] = Inr 1"
  by (simp_all add: make_robot_from_rule_sequence_def py_index_def toy_grammar_def)




section \<open>The loop over the blocks\<close>

text \<open>
  Reading the rows \<open>0 .. 9\<close> of a block visits its first ten rows, and raises
  KeyError after the last row of a block that has fewer. The loop over the blocks is
  then a loop over the rows it reads, followed by that exception if a block is short.
\<close>

lemma for_each_map: "for_each F (map f xs) s = for_each (\<lambda>x. F (f x)) xs s"
  by (induction xs arbitrary: s) (auto split: prod.splits option.splits)

lemma for_each_cong_set:
  "(\<And>x s. x \<in> set xs \<Longrightarrow> F x s = G x s) \<Longrightarrow> for_each F xs s = for_each G xs s"
  by (induction xs arbitrary: s) (auto split: prod.splits option.splits)

lemma upto_as_map: "[0..int k - 1] = map int [0..<k]"
proof (induction k)
  case 0
  show ?case by simp
next
  case (Suc k)
  have "[0..int (Suc k) - 1] = [0..int k - 1] @ [int k]"
    using upto_rec2 [of 0 "int k"] by simp
  then show ?case using Suc by simp
qed

lemma take_as_map: "k \<le> length xs \<Longrightarrow> take k xs = map (\<lambda>i. xs ! i) [0..<k]"
  by (rule nth_equalityI) simp_all

lemma for_each_ix_prefix:
  assumes "k \<le> length block"
  shows "for_each (\<lambda>i s. case ix block i of Inl e \<Rightarrow> (s, Some e) | Inr row \<Rightarrow> body row s)
           [0..int k - 1] s = for_each body (take k block) s"
proof -
  have "for_each (\<lambda>i s. case ix block i of Inl e \<Rightarrow> (s, Some e) | Inr row \<Rightarrow> body row s)
           (map int [0..<k]) s = for_each (\<lambda>i. body (block ! i)) [0..<k] s"
    unfolding for_each_map using assms
    by (intro for_each_cong_set) (simp add: ix_def)
  also have "\<dots> = for_each body (map (\<lambda>i. block ! i) [0..<k]) s"
    by (simp add: for_each_map)
  finally show ?thesis
    using assms by (simp add: upto_as_map take_as_map)
qed

lemma top_block_loop_take:
  "top_block_loop body block s =
     (case for_each body (take 10 block) s of
        (s', Some e) \<Rightarrow> (s', Some e)
      | (s', None) \<Rightarrow> (s', if length block < 10 then Some KeyError else None))"
proof (cases "10 \<le> length block")
  case True
  have "top_block_loop body block s = for_each body (take 10 block) s"
    using for_each_ix_prefix [of 10 block body s] True
    by (simp add: top_block_loop_def py_range_def)
  then show ?thesis using True by (simp split: prod.splits option.splits)
next
  case False
  define k where "k = length block"
  have k: "k < 10" using False by (simp add: k_def)
  have split: "[0..9] = [0..int k - 1] @ int k # [int k + 1..9]"
    using k upto_split3 [of 0 "int k" 9] by simp
  have fail: "ix block (int k) = Inl KeyError"
    by (simp add: ix_def k_def)
  have "for_each (\<lambda>i s. case ix block i of Inl e \<Rightarrow> (s, Some e) | Inr row \<Rightarrow> body row s)
           [0..int k - 1] s = for_each body (take k block) s"
    by (rule for_each_ix_prefix) (simp add: k_def)
  then show ?thesis
    using k fail unfolding top_block_loop_def py_range_def
    by (simp add: split for_each_append k_def split: prod.splits option.splits)
qed

lemma top_block_loop_record:
  "top_block_loop record_visit block v =
     (v @ take 10 block, if length block < 10 then Some KeyError else None)"
  by (simp add: top_block_loop_take for_each_record_visit)

lemma top_blocks_factor:
  "\<exists>rows err.
     (\<forall>v. for_each (\<lambda>b. top_block_loop record_visit b) bs v = (v @ rows, err)) \<and>
     (\<forall>s. for_each (\<lambda>b. top_block_loop body b) bs s =
        (case for_each body rows s of
           (s', Some e) \<Rightarrow> (s', Some e)
         | (s', None) \<Rightarrow> (s', err)))"
proof (induction bs)
  case Nil
  show ?case by simp
next
  case (Cons b bs)
  then obtain rows err where
    rec: "\<And>v. for_each (\<lambda>b. top_block_loop record_visit b) bs v = (v @ rows, err)" and
    run: "\<And>s. for_each (\<lambda>b. top_block_loop body b) bs s =
        (case for_each body rows s of
           (s', Some e) \<Rightarrow> (s', Some e)
         | (s', None) \<Rightarrow> (s', err))"
    by blast
  show ?case
  proof (cases "length b < 10")
    case True
    have "\<forall>v. for_each (\<lambda>b. top_block_loop record_visit b) (b # bs) v =
            (v @ take 10 b, Some KeyError)"
      using True by (simp add: top_block_loop_record)
    moreover have "\<forall>s. for_each (\<lambda>b. top_block_loop body b) (b # bs) s =
        (case for_each body (take 10 b) s of
           (s', Some e) \<Rightarrow> (s', Some e)
         | (s', None) \<Rightarrow> (s', Some KeyError))"
      using True by (simp add: top_block_loop_take split: prod.splits option.splits)
    ultimately show ?thesis by blast
  next
    case False
    have "\<forall>v. for_each (\<lambda>b. top_block_loop record_visit b) (b # bs) v =
            (v @ (take 10 b @ rows), err)"
      using False by (simp add: top_block_loop_record rec)
    moreover have "\<forall>s. for_each (\<lambda>b. top_block_loop body b) (b # bs) s =
        (case for_each body (take 10 b @ rows) s of
           (s', Some e) \<Rightarrow> (s', Some e)
         | (s', None) \<Rightarrow> (s', err))"
      using False
      by (simp add: top_block_loop_take run for_each_append split: prod.splits option.splits)
    ultimately show ?thesis by blast
  qed
qed

lemma iterations_top_loop_blocks:
  "iterations_top_loop body sort_values iteration_df s =
     for_each (\<lambda>b. top_block_loop body b)
       (map (\<lambda>start_index. sort_values (row_slice iteration_df start_index
               (min (start_index + 1000) (int (length iteration_df)))))
          (arange 0 (int (length iteration_df)) 1000)) s"
  by (simp add: iterations_top_loop_def Let_def for_each_map)

lemma iterations_top_loop_factor:
  "iterations_top_loop body sort_values iteration_df s =
     (case for_each body (fst (iterations_top_rows sort_values iteration_df)) s of
        (s', Some e) \<Rightarrow> (s', Some e)
      | (s', None) \<Rightarrow> (s', snd (iterations_top_rows sort_values iteration_df)))"
proof -
  define bs where "bs = map (\<lambda>start_index. sort_values (row_slice iteration_df start_index
               (min (start_index + 1000) (int (length iteration_df)))))
          (arange 0 (int (length iteration_df)) 1000)"
  obtain rows err where
    rec: "\<And>v. for_each (\<lambda>b. top_block_loop record_visit b) bs v = (v @ rows, err)" and
    run: "\<And>s. for_each (\<lambda>b. top_block_loop body b) bs s =
        (case for_each body rows s of
           (s', Some e) \<Rightarrow> (s', Some e)
         | (s', None) \<Rightarrow> (s', err))"
    using top_blocks_factor [of bs body] by blast
  have "iterations_top_rows sort_values iteration_df = (rows, err)"
    using rec [of "[]"] by (simp add: iterations_top_rows_def iterations_top_loop_blocks bs_def)
  then have eq: "fst (iterations_top_rows sort_values iteration_df) = rows"
    "snd (iterations_top_rows sort_values iteration_df) = err"
    by simp_all
  show ?thesis
    unfolding eq using run [of s] by (simp add: iterations_top_loop_blocks bs_def)
qed

lemma top_blocks_record_full:
  "\<forall>b\<in>set bs. 10 \<le> length b \<Longrightarrow>
   for_each (\<lambda>b. top_block_loop record_visit b) bs v = (v @ concat (map (take 10) bs), None)"
  by (induction bs arbitrary: v) (simp_all add: top_block_loop_record)

lemma top_blocks_record_short:
  "b \<in> set bs \<Longrightarrow> length b < 10 \<Longrightarrow>
   snd (for_each (\<lambda>b. top_block_loop record_visit b) bs v) = Some KeyError"
  by (induction bs arbitrary: v) (auto simp: top_block_loop_record)

lemma length_row_slice:
  assumes "0 \<le> a" "a < int (length xs)"
  shows "length (row_slice xs a (min (a + 1000) (int (length xs)))) =
         nat (min 1000 (int (length xs) - a))"
  using assms by (auto simp: row_slice_def min_def)

lemma last_block_short:
  assumes "0 < n mod 1000" "n mod 1000 < 10" "0 \<le> (n::int)"
  shows "n - n mod 1000 \<in> set (arange 0 n 1000) \<and> min 1000 (n - (n - n mod 1000)) < 10"
proof -
  have "n mod 1000 \<le> n" using assms(3) by (simp add: zmod_le_nonneg_dividend)
  moreover have "(n - n mod 1000) mod 1000 = 0" by (simp add: minus_mod_eq_mult_div)
  ultimately show ?thesis using assms by (simp add: set_arange)
qed

lemma blocks_full:
  assumes "n mod 1000 = 0 \<or> 10 \<le> n mod 1000" "m \<in> set (arange 0 n 1000)"
  shows "10 \<le> min 1000 (n - (m::int))"
proof -
  from assms(2) have m: "0 \<le> m" "m < n" "m mod 1000 = 0" by (simp_all add: set_arange)
  have eq: "(n - m) mod 1000 = n mod 1000"
    using m(3) by (metis mod_diff_right_eq diff_zero)
  show ?thesis
  proof (cases "n - m < 1000")
    case True
    then have "(n - m) mod 1000 = n - m" using m by simp
    with eq assms(1) m show ?thesis by auto
  next
    case False
    then show ?thesis by simp
  qed
qed

lemma mod_1000_int: "int (length xs) mod 1000 = int (length xs mod 1000)"
  by (simp add: zmod_int)

lemma iterations_top_rows_blocks:
  "iterations_top_rows sort_values iteration_df =
     for_each (\<lambda>b. top_block_loop record_visit b)
       (map (\<lambda>start_index. sort_values (row_slice iteration_df start_index
               (min (start_index + 1000) (int (length iteration_df)))))
          (arange 0 (int (length iteration_df)) 1000)) []"
  by (simp add: iterations_top_rows_def iterations_top_loop_blocks)

lemma iterations_top_rows_short:
  assumes len: "\<forall>xs. length (sort_values xs) = length xs"
    and short: "0 < length iteration_df mod 1000" "length iteration_df mod 1000 < 10"
  shows "snd (iterations_top_rows sort_values iteration_df) = Some KeyError"
proof -
  define n where "n = int (length iteration_df)"
  have n: "0 < n mod 1000" "n mod 1000 < 10" "0 \<le> n"
    using short by (simp_all add: n_def mod_1000_int)
  define m where "m = n - n mod 1000"
  have m: "m \<in> set (arange 0 n 1000)" "min 1000 (n - m) < 10"
    using last_block_short [OF n] by (simp_all add: m_def)
  then have "0 \<le> m" "m < n" by (simp_all add: set_arange)
  then have "length (sort_values (row_slice iteration_df m (min (m + 1000) n))) < 10"
    using m(2) len length_row_slice [of m iteration_df] by (simp add: n_def)
  moreover have "sort_values (row_slice iteration_df m (min (m + 1000) n)) \<in>
     set (map (\<lambda>start_index. sort_values (row_slice iteration_df start_index
               (min (start_index + 1000) n))) (arange 0 n 1000))"
    using m(1) by simp
  ultimately show ?thesis
    unfolding iterations_top_rows_blocks n_def [symmetric]
    by (rule top_blocks_record_short [rotated])
qed

lemma iterations_top_rows_full:
  assumes len: "\<forall>xs. length (sort_values xs) = length xs"
    and full: "length iteration_df mod 1000 = 0 \<or> 10 \<le> length iteration_df mod 1000"
  shows "iterations_top_rows sort_values iteration_df =
     (concat (map (\<lambda>start_index. take 10 (sort_values (row_slice iteration_df start_index
               (min (start_index + 1000) (int (length iteration_df))))))
          (arange 0 (int (length iteration_df)) 1000)), None)"
proof -
  define n where "n = int (length iteration_df)"
  have n: "n mod 1000 = 0 \<or> 10 \<le> n mod 1000"
    using full by (simp add: n_def mod_1000_int)
  have "10 \<le> length (sort_values (row_slice iteration_df m (min (m + 1000) n)))"
    if "m \<in> set (arange 0 n 1000)" for m
  proof -
    from that have "0 \<le> m" "m < n" by (simp_all add: set_arange)
    then show ?thesis
      using blocks_full [OF n that] len length_row_slice [of m iteration_df]
      by (simp add: n_def)
  qed
  then have "\<forall>b\<in>set (map (\<lambda>start_index. sort_values (row_slice iteration_df start_index
               (min (start_index + 1000) n))) (arange 0 n 1000)). 10 \<le> length b"
    by auto
  from top_blocks_record_full [OF this, of "[]"] show ?thesis
    unfolding iterations_top_rows_blocks n_def [symmetric]
    by (simp add: o_def)
qed

lemma top_blocks_record_subset:
  "set (fst (for_each (\<lambda>b. top_block_loop record_visit b) bs v)) \<subseteq> set v \<union> \<Union> (set ` set bs)"
proof (induction bs arbitrary: v)
  case Nil
  show ?case by simp
next
  case (Cons b bs)
  have "set (take 10 b) \<subseteq> set b" by (rule set_take_subset)
  then show ?case
    using Cons.IH [of "v @ take 10 b"]
    by (auto simp: top_block_loop_record)
qed

lemma set_row_slice: "set (row_slice xs a b) \<subseteq> set xs"
  unfolding row_slice_def
  by (meson set_take_subset set_drop_subset subset_trans)

lemma iterations_top_rows_subset:
  assumes "\<forall>xs. set (sort_values xs) \<subseteq> set xs"
  shows "set (fst (iterations_top_rows sort_values iteration_df)) \<subseteq> set iteration_df"
proof -
  have "\<Union> (set ` set (map (\<lambda>start_index. sort_values (row_slice iteration_df start_index
               (min (start_index + 1000) (int (length iteration_df)))))
          (arange 0 (int (length iteration_df)) 1000))) \<subseteq> set iteration_df"
    using assms set_row_slice by fastforce
  then show ?thesis
    unfolding iterations_top_rows_blocks
    using top_blocks_record_subset [of _ "[]"] by fastforce
qed

lemma for_each_no_error:
  "(\<And>x s. x \<in> set xs \<Longrightarrow> snd (F x s) = None) \<Longrightarrow> snd (for_each F xs s) = None"
proof (induction xs arbitrary: s)
  case Nil
  show ?case by simp
next
  case (Cons x xs)
  have "snd (F x s) = None" by (rule Cons.prems) simp
  then obtain s' where "F x s = (s', None)" by (cases "F x s") simp
  then show ?case using Cons by simp
qed

lemma save_robot_image_valid:
  assumes "\<forall>r\<in>set rule_sequence. - int (length rules) \<le> r \<and> r < int (length rules)"
  shows "snd (save_robot_image G rules name rule_sequence saved) = None"
proof (cases "make_robot_from_rule_sequence G rule_sequence rules")
  case (Inl e)
  then have "make_robot_from_rule_sequence G rule_sequence rules = Inl IndexError"
    using make_robot_error by fastforce
  then show ?thesis using assms by (fastforce simp: make_robot_fails_iff)
next
  case (Inr robot)
  then show ?thesis by (simp add: save_robot_image_def)
qed

lemma main_iterations_top_error:
  "snd (main G sort_values rules iteration_df task (Some ''iterations_top'')) =
     (case snd (for_each (save_top G rules) (fst (iterations_top_rows sort_values iteration_df)) []) of
        Some e \<Rightarrow> Some e
      | None \<Rightarrow> snd (iterations_top_rows sort_values iteration_df))"
  by (simp add: main_iterations_top iterations_top_loop_factor split: prod.splits option.splits)

section \<open>The claims on the selection of log entries\<close>



text \<open>
  C2, as the code has it. In the type \<open>iterations\<close> the indices visited are, for each
  multiple \<open>m\<close> of 1000 from 0 to the length \<open>n\<close> of the log, those \<open>i\<close> with
  \<open>max (m - 10) 0 \<le> i < min (m + 10) n\<close>. For a log of length 2500 they are
  \<open>0 .. 9\<close>, \<open>990 .. 1009\<close> and \<open>1990 .. 2009\<close>. \<open>main\<close> saves one file per visited
  index, in this order.
\<close>

theorem iterations_windows_half_open:
  "set (iterations_indices n) =
     {i. \<exists>m. 0 \<le> m \<and> m \<le> n \<and> m mod 1000 = 0 \<and> max (m - 10) 0 \<le> i \<and> i < min (m + 10) n} \<and>
   iterations_indices 2500 = [0..9] @ [990..1009] @ [1990..2009] \<and>
   main G sort_values rules iteration_df task (Some ''iterations'') =
     for_each (save_iteration G rules iteration_df)
       (iterations_indices (int (length iteration_df))) []"
  using set_iterations_indices [of n] iterations_indices_2500
    main_iterations [of G sort_values rules iteration_df task]
  by simp

text \<open>
  The claim C2 fails on the code: for a log of length 2500 the indices 10, 1010 and 2010
  are not visited, and no index from 2490 on is, since 2500 is no multiple of 1000.
\<close>

theorem iterations_2500_counterexample:
  "set (iterations_indices 2500) \<noteq> {0..10} \<union> {990..1010} \<union> {1990..2010} \<union> {2490..2500} \<and>
   10 \<notin> set (iterations_indices 2500) \<and>
   1010 \<notin> set (iterations_indices 2500) \<and>
   2495 \<notin> set (iterations_indices 2500)"
proof -
  have a: "10 \<notin> set (iterations_indices 2500)" "1010 \<notin> set (iterations_indices 2500)"
    "2495 \<notin> set (iterations_indices 2500)"
    by (simp_all add: iterations_indices_2500)
  moreover have "(10::int) \<in> {0..10} \<union> {990..1010} \<union> {1990..2010} \<union> {2490..2500}"
    by simp
  ultimately have "set (iterations_indices 2500) \<noteq>
      {0..10} \<union> {990..1010} \<union> {1990..2010} \<union> {2490..2500}"
    by metis
  with a show ?thesis by simp
qed

text \<open>
  C5, as the code has it. On a log without rows no type raises an exception: the three
  types that read the log visit nothing and save nothing, and the run ends normally.
  Only the type \<open>terrain\<close> saves its one file.
\<close>

theorem empty_log_saves_nothing:
  "main G sort_values rules [] task type =
     (if type = Some ''terrain'' then ([(Terrain_png task, None)], None) else ([], None))"
  by (rule main_empty_log)

text \<open>
  The claim C5 fails on the code: with an empty log each of the three types ends
  without an exception.
\<close>

theorem empty_log_counterexample:
  "main toy_grammar sort_keep_ties [1, 2] [] ''FlatTerrainTask'' (Some ''iterations'') = ([], None) \<and>
   main toy_grammar sort_keep_ties [1, 2] [] ''FlatTerrainTask'' (Some ''iterations_top'') = ([], None) \<and>
   main toy_grammar sort_keep_ties [1, 2] [] ''FlatTerrainTask'' (Some ''percentiles'') = ([], None)"
  by (simp add: main_empty_log)

text \<open>
  C6, as the code has it. When the type is none of \<open>iterations\<close>, \<open>iterations_top\<close>,
  \<open>percentiles\<close> and \<open>terrain\<close>, also when it is not given, no branch of \<open>main\<close> is
  taken: the run saves nothing and ends normally, without an exception.
\<close>

theorem unknown_type_saves_nothing:
  assumes "type \<notin> {Some ''iterations'', Some ''iterations_top'', Some ''percentiles'',
                  Some ''terrain''}"
  shows "main G sort_values rules iteration_df task type = ([], None)"
  using assms by (simp add: main_other_type)

theorem unknown_type_saves_nothing_witness:
  "Some ''best'' \<notin> {Some ''iterations'', Some ''iterations_top'', Some ''percentiles'',
                    Some ''terrain''} \<and>
   main toy_grammar sort_keep_ties [1, 2] unsorted_log ''FlatTerrainTask'' (Some ''best'') =
     ([], None)"
proof -
  have h: "Some ''best'' \<notin> {Some ''iterations'', Some ''iterations_top'', Some ''percentiles'',
                             Some ''terrain''}"
    by simp
  from h unknown_type_saves_nothing [OF h] show ?thesis by simp
qed

text \<open>
  The claim C6 fails on the code: with the type \<open>top\<close>, or with no type, the run ends
  without an exception.
\<close>

theorem unknown_type_counterexample:
  "main toy_grammar sort_keep_ties [1, 2] unsorted_log ''FlatTerrainTask'' (Some ''top'') =
     ([], None) \<and>
   main toy_grammar sort_keep_ties [1, 2] unsorted_log ''FlatTerrainTask'' None = ([], None)"
  by (simp add: main_other_type)

section \<open>The claim on the camera\<close>

text \<open>
  The distance written out in the coordinates of the two corners of the box.
\<close>

lemma linalg_norm_vec_sub:
  "linalg_norm (vec_sub (ux, uy, uz) (lx, ly, lz)) =
     sqrt ((ux - lx)\<^sup>2 + (uy - ly)\<^sup>2 + (uz - lz)\<^sup>2)"
  by (simp add: linalg_norm_def vec_sub_def)

lemma camera_of_box:
  "get_robot_image_camera
     \<lparr> base_translation = (\<lambda>b. p),
       robot_world_aabb = (\<lambda>b. ((lx, ly, lz), (ux, uy, uz))) \<rparr> (Some b) =
   \<lparr> position = p, yaw = pi / 3, pitch = - pi / 6,
     distance = 2 * sqrt ((ux - lx)\<^sup>2 + (uy - ly)\<^sup>2 + (uz - lz)\<^sup>2) \<rparr>"
  by (simp add: get_robot_image_camera_def linalg_norm_vec_sub)

lemma camera_of_sim:
  "get_robot_image_camera sim (Some b) =
   \<lparr> position = base_translation sim b, yaw = pi / 3, pitch = - pi / 6,
     distance =
       2 * sqrt ((fst (snd (robot_world_aabb sim b)) - fst (fst (robot_world_aabb sim b)))\<^sup>2 +
                 (fst (snd (snd (robot_world_aabb sim b))) -
                    fst (snd (fst (robot_world_aabb sim b))))\<^sup>2 +
                 (snd (snd (snd (robot_world_aabb sim b))) -
                    snd (snd (fst (robot_world_aabb sim b))))\<^sup>2) \<rparr>"
proof -
  obtain lx ly lz ux uy uz where "robot_world_aabb sim b = ((lx, ly, lz), (ux, uy, uz))"
    by (metis prod.collapse)
  then show ?thesis
    by (simp add: get_robot_image_camera_def linalg_norm_vec_sub)
qed

lemma sqrt_49: "sqrt 49 = (7::real)"
  using real_sqrt_abs [of 7] by simp

text \<open>
  C7. With a robot, the camera is at the translation of the robot's base link, with yaw
  \<open>\<pi> / 3\<close>, pitch \<open>- \<pi> / 6\<close> and, as distance, twice the Euclidean norm of
  \<open>upper - lower\<close> of the robot's world bounding box, that is
  \<open>2 * sqrt ((ux - lx)\<^sup>2 + (uy - ly)\<^sup>2 + (uz - lz)\<^sup>2)\<close> for the corners
  \<open>(lx, ly, lz)\<close> and \<open>(ux, uy, uz)\<close>: for every simulation, for every box, and so
  \<open>2 * sqrt 3\<close> for the box from \<open>(0, 0, 0)\<close> to \<open>(1, 1, 1)\<close> as for the box from
  \<open>(1, 1, 1)\<close> to \<open>(2, 2, 2)\<close>, and 14 for the box from \<open>(1, 2, 3)\<close> to \<open>(3, 5, 9)\<close>.
  Without a robot, the camera is at \<open>(1, 0, 0)\<close> with yaw \<open>- \<pi> / 3\<close>, pitch
  \<open>- \<pi> / 6\<close> and distance 5.
\<close>

theorem camera_frames_robot:
  "get_robot_image_camera sim (Some b) =
   \<lparr> position = base_translation sim b, yaw = pi / 3, pitch = - pi / 6,
     distance =
       2 * sqrt ((fst (snd (robot_world_aabb sim b)) - fst (fst (robot_world_aabb sim b)))\<^sup>2 +
                 (fst (snd (snd (robot_world_aabb sim b))) -
                    fst (snd (fst (robot_world_aabb sim b))))\<^sup>2 +
                 (snd (snd (snd (robot_world_aabb sim b))) -
                    snd (snd (fst (robot_world_aabb sim b))))\<^sup>2) \<rparr> \<and>
   get_robot_image_camera
     \<lparr> base_translation = (\<lambda>b. p),
       robot_world_aabb = (\<lambda>b. ((lx, ly, lz), (ux, uy, uz))) \<rparr> (Some b) =
   \<lparr> position = p, yaw = pi / 3, pitch = - pi / 6,
     distance = 2 * sqrt ((ux - lx)\<^sup>2 + (uy - ly)\<^sup>2 + (uz - lz)\<^sup>2) \<rparr> \<and>
   distance (get_robot_image_camera
      \<lparr> base_translation = (\<lambda>b. (1 / 2, 1 / 2, 1 / 2)),
        robot_world_aabb = (\<lambda>b. ((0, 0, 0), (1, 1, 1))) \<rparr> (Some b)) = 2 * sqrt 3 \<and>
   distance (get_robot_image_camera
      \<lparr> base_translation = (\<lambda>b. (3 / 2, 3 / 2, 3 / 2)),
        robot_world_aabb = (\<lambda>b. ((1, 1, 1), (2, 2, 2))) \<rparr> (Some b)) = 2 * sqrt 3 \<and>
   distance (get_robot_image_camera
      \<lparr> base_translation = (\<lambda>b. (2, 3, 6)),
        robot_world_aabb = (\<lambda>b. ((1, 2, 3), (3, 5, 9))) \<rparr> (Some b)) = 14 \<and>
   get_robot_image_camera sim None =
     \<lparr> position = (1, 0, 0), yaw = - pi / 3, pitch = - pi / 6, distance = 5 \<rparr>"
proof -
  have "get_robot_image_camera sim None =
     \<lparr> position = (1, 0, 0), yaw = - pi / 3, pitch = - pi / 6, distance = 5 \<rparr>"
    by (simp add: get_robot_image_camera_def)
  moreover have "distance (get_robot_image_camera
      \<lparr> base_translation = (\<lambda>b. (2, 3, 6)),
        robot_world_aabb = (\<lambda>b. ((1, 2, 3), (3, 5, 9))) \<rparr> (Some b)) = 14"
    by (simp add: camera_of_box sqrt_49)
  ultimately show ?thesis
    using camera_of_sim [of sim b] by (simp add: camera_of_box)
qed

section \<open>Sorting the blocks\<close>

lemma sort_keep_ties_perm: "mset (sort_keep_ties xs) = mset xs"
  by (simp add: sort_keep_ties_def)

lemma sort_keep_ties_desc: "sorted_wrt (\<lambda>a b. result b \<le> result a) (sort_keep_ties xs)"
  using sorted_sort_key [of "\<lambda>r. - result r" xs]
  by (simp add: sort_keep_ties_def sorted_map)

lemma sort_turn_ties_perm: "mset (sort_turn_ties xs) = mset xs"
  by (simp add: sort_turn_ties_def)

lemma sort_turn_ties_desc: "sorted_wrt (\<lambda>a b. result b \<le> result a) (sort_turn_ties xs)"
  using sorted_sort_key [of result xs]
  by (simp add: sort_turn_ties_def sorted_map sorted_wrt_rev)

lemma top_ten_of_sorted:
  assumes perm: "mset sorted_block = mset block"
    and desc: "sorted_wrt (\<lambda>a b. result b \<le> result a) sorted_block"
    and len: "10 \<le> length block"
  shows "length (take 10 sorted_block) = 10"
    and "sorted_wrt (\<lambda>a b. result b \<le> result a) (take 10 sorted_block)"
    and "mset (take 10 sorted_block) \<subseteq># mset block"
    and "\<forall>x\<in>#mset block - mset (take 10 sorted_block).
           \<forall>y\<in>set (take 10 sorted_block). result x \<le> result y"
proof -
  have "length sorted_block = length block"
    using perm by (metis size_mset)
  then show "length (take 10 sorted_block) = 10"
    using len by simp
  show "sorted_wrt (\<lambda>a b. result b \<le> result a) (take 10 sorted_block)"
    using desc by (rule sorted_wrt_take)
  have split: "mset block = mset (take 10 sorted_block) + mset (drop 10 sorted_block)"
    using perm by (metis append_take_drop_id mset_append)
  then show "mset (take 10 sorted_block) \<subseteq># mset block"
    by simp
  have "sorted_wrt (\<lambda>a b. result b \<le> result a) (take 10 sorted_block @ drop 10 sorted_block)"
    using desc by simp
  then have "\<forall>y\<in>set (take 10 sorted_block). \<forall>x\<in>set (drop 10 sorted_block). result x \<le> result y"
    unfolding sorted_wrt_append by blast
  then show "\<forall>x\<in>#mset block - mset (take 10 sorted_block).
           \<forall>y\<in>set (take 10 sorted_block). result x \<le> result y"
    by (auto simp: split)
qed

lemma main_iterations_top_factor:
  "main G sort_values rules iteration_df task (Some ''iterations_top'') =
     (case for_each (save_top G rules) (fst (iterations_top_rows sort_values iteration_df)) [] of
        (saved, Some e) \<Rightarrow> (saved, Some e)
      | (saved, None) \<Rightarrow> (saved, snd (iterations_top_rows sort_values iteration_df)))"
  by (simp add: main_iterations_top iterations_top_loop_factor)

lemma take_10_scored_log:
  "map iteration (take 10 (sort_keep_ties scored_log)) = [11, 10, 9, 8, 7, 6, 5, 4, 3, 2]"
  by (simp add: scored_log_def sort_keep_ties_def sort_key_def upto.simps)

lemma length_tied_log: "length tied_log = 1000"
  by (simp add: tied_log_def)

lemma sort_turn_ties_tied_log: "sort_turn_ties tied_log = rev tied_log"
proof -
  have "map result tied_log = replicate (length tied_log) 0"
    by (simp add: tied_log_def o_def map_replicate_const)
  then have "sorted (map result tied_log)" by simp
  then show ?thesis
    by (simp add: sort_turn_ties_def sort_key_id_if_sorted)
qed

lemma take_10_rev_tied_log:
  "map iteration (take 10 (rev tied_log)) = [999, 998, 997, 996, 995, 994, 993, 992, 991, 990]"
proof -
  have "[0..999] = [0..989] @ [990..999::int]"
    using upto_split1 [of 0 990 999] by simp
  moreover have "length [0..989::int] = 990" by simp
  ultimately have "drop 990 [0..999::int] = [990..999]"
    by (metis append_eq_conv_conj)
  then have a: "map iteration (drop 990 tied_log) = [990..999]"
    by (simp add: tied_log_def drop_map o_def)
  have "map iteration (take 10 (rev tied_log)) = rev (map iteration (drop 990 tied_log))"
    by (simp add: take_rev length_tied_log rev_map)
  then show ?thesis unfolding a by simp
qed

lemma arange_0_1000: "arange 0 1000 1000 = [0]"
  by (simp add: arange.simps)

lemma iterations_top_rows_tied_log:
  "iterations_top_rows sort_turn_ties tied_log = (take 10 (rev tied_log), None)"
proof -
  have len: "\<forall>xs. length (sort_turn_ties xs) = length xs"
    by (simp add: sort_turn_ties_def)
  have "row_slice tied_log 0 1000 = tied_log"
    by (simp add: row_slice_def length_tied_log)
  then show ?thesis
    using iterations_top_rows_full [OF len, of tied_log]
    by (simp add: length_tied_log arange_0_1000 sort_turn_ties_tied_log)
qed

lemma length_unsorted_log_mod: "length unsorted_log mod 1000 = 2"
  by (simp add: unsorted_log_def)

section \<open>The claims on the type iterations_top\<close>

text \<open>
  C10. The loop reads the rows \<open>0 .. 9\<close> of every sorted block without looking at the
  length of the block. For a sort that returns the rows it is given: when the length of
  the log modulo 1000 is above 0 and below 10, the last block has fewer than 10 rows
  and the run ends with an exception; and when no rule sequence of the log holds an
  index out of range, the run ends with KeyError in exactly that case and without an
  exception otherwise, that is, when every block has at least 10 rows.
\<close>

theorem top_ten_reads_ten_rows:
  assumes perm: "\<forall>xs. mset (sort_values xs) = mset xs"
  shows
   "(0 < length iteration_df mod 1000 \<and> length iteration_df mod 1000 < 10 \<longrightarrow>
       snd (main G sort_values rules iteration_df task (Some ''iterations_top'')) \<noteq> None) \<and>
    ((\<forall>row\<in>set iteration_df. \<forall>r\<in>set (rule_seq row).
         - int (length rules) \<le> r \<and> r < int (length rules)) \<longrightarrow>
       snd (main G sort_values rules iteration_df task (Some ''iterations_top'')) =
         (if 0 < length iteration_df mod 1000 \<and> length iteration_df mod 1000 < 10
          then Some KeyError else None))"
proof -
  have len: "\<forall>xs. length (sort_values xs) = length xs"
    using perm by (metis size_mset)
  have sub: "\<forall>xs. set (sort_values xs) \<subseteq> set xs"
    using perm by (metis set_mset_mset subset_refl)
  have short: "snd (main G sort_values rules iteration_df task (Some ''iterations_top'')) \<noteq> None"
    if "0 < length iteration_df mod 1000 \<and> length iteration_df mod 1000 < 10"
    using iterations_top_rows_short [OF len] that
    by (simp add: main_iterations_top_error split: option.splits)
  have valid: "snd (main G sort_values rules iteration_df task (Some ''iterations_top'')) =
         (if 0 < length iteration_df mod 1000 \<and> length iteration_df mod 1000 < 10
          then Some KeyError else None)"
    if ok: "\<forall>row\<in>set iteration_df. \<forall>r\<in>set (rule_seq row).
         - int (length rules) \<le> r \<and> r < int (length rules)"
  proof -
    have "snd (for_each (save_top G rules) (fst (iterations_top_rows sort_values iteration_df)) [])
          = None"
    proof (rule for_each_no_error)
      fix row s
      assume "row \<in> set (fst (iterations_top_rows sort_values iteration_df))"
      then have "row \<in> set iteration_df"
        using iterations_top_rows_subset [OF sub] by blast
      then show "snd (save_top G rules row s) = None"
        using ok by (simp add: save_top_def save_robot_image_valid)
    qed
    then have eq: "snd (main G sort_values rules iteration_df task (Some ''iterations_top'')) =
       snd (iterations_top_rows sort_values iteration_df)"
      by (simp add: main_iterations_top_error)
    show ?thesis
    proof (cases "0 < length iteration_df mod 1000 \<and> length iteration_df mod 1000 < 10")
      case True
      then show ?thesis using iterations_top_rows_short [OF len] eq by simp
    next
      case False
      then have "length iteration_df mod 1000 = 0 \<or> 10 \<le> length iteration_df mod 1000"
        by auto
      from iterations_top_rows_full [OF len this] False eq show ?thesis by simp
    qed
  qed
  from short valid show ?thesis by blast
qed

theorem top_ten_reads_ten_rows_witness:
  "snd (main toy_grammar sort_keep_ties [1, 2] unsorted_log ''FlatTerrainTask''
          (Some ''iterations_top'')) = Some KeyError"
proof -
  have p: "\<forall>xs. mset (sort_keep_ties xs) = mset xs"
    by (simp add: sort_keep_ties_perm)
  have s: "0 < length unsorted_log mod 1000 \<and> length unsorted_log mod 1000 < 10"
    by (simp add: length_unsorted_log_mod)
  have v: "\<forall>row\<in>set unsorted_log. \<forall>r\<in>set (rule_seq row).
             - int (length [1, 2 :: int]) \<le> r \<and> r < int (length [1, 2 :: int])"
    by (simp add: unsorted_log_def)
  from top_ten_reads_ten_rows [OF p, of unsorted_log toy_grammar "[1, 2]" "''FlatTerrainTask''"] s v
  show ?thesis by simp
qed

text \<open>
  C3, as the code has it. The sort of a block is the default sort of pandas, of which
  the theorem takes only that it returns the rows of the block in descending order of
  score. Then, for every block of at least 10 rows, so for every block of 1000, the
  loop reads exactly the first 10 rows of the sorted block: 10 rows of the block, in
  descending order of score, and no other row of the block has a higher score than
  any of them. When every block of the log has at least 10 rows these are, block after
  block, the rows that \<open>main\<close> makes files of. The order of rows of equal score is the
  one the sort gives them.
\<close>

theorem top_block_saves_ten_highest:
  assumes perm: "\<forall>xs. mset (sort_values xs) = mset xs"
    and desc: "\<forall>xs. sorted_wrt (\<lambda>a b. result b \<le> result a) (sort_values xs)"
    and len: "10 \<le> length block"
  shows
   "top_block_loop record_visit (sort_values block) [] = (take 10 (sort_values block), None) \<and>
    length (take 10 (sort_values block)) = 10 \<and>
    sorted_wrt (\<lambda>a b. result b \<le> result a) (take 10 (sort_values block)) \<and>
    mset (take 10 (sort_values block)) \<subseteq># mset block \<and>
    (\<forall>x\<in>#mset block - mset (take 10 (sort_values block)).
       \<forall>y\<in>set (take 10 (sort_values block)). result x \<le> result y) \<and>
    (length iteration_df mod 1000 = 0 \<or> 10 \<le> length iteration_df mod 1000 \<longrightarrow>
       iterations_top_rows sort_values iteration_df =
         (concat (map (\<lambda>start_index. take 10 (sort_values (row_slice iteration_df start_index
               (min (start_index + 1000) (int (length iteration_df))))))
            (arange 0 (int (length iteration_df)) 1000)), None)) \<and>
    main G sort_values rules iteration_df task (Some ''iterations_top'') =
      (case for_each (save_top G rules) (fst (iterations_top_rows sort_values iteration_df)) [] of
         (saved, Some e) \<Rightarrow> (saved, Some e)
       | (saved, None) \<Rightarrow> (saved, snd (iterations_top_rows sort_values iteration_df)))"
proof -
  have p: "mset (sort_values block) = mset block"
    and d: "sorted_wrt (\<lambda>a b. result b \<le> result a) (sort_values block)"
    using perm desc by simp_all
  have l: "\<forall>xs. length (sort_values xs) = length xs"
    using perm by (metis size_mset)
  then have "top_block_loop record_visit (sort_values block) [] =
      (take 10 (sort_values block), None)"
    using len by (simp add: top_block_loop_record)
  moreover note top_ten_of_sorted [OF p d len]
  moreover have "iterations_top_rows sort_values iteration_df =
         (concat (map (\<lambda>start_index. take 10 (sort_values (row_slice iteration_df start_index
               (min (start_index + 1000) (int (length iteration_df))))))
            (arange 0 (int (length iteration_df)) 1000)), None)"
    if "length iteration_df mod 1000 = 0 \<or> 10 \<le> length iteration_df mod 1000"
    using iterations_top_rows_full [OF l that] .
  moreover note main_iterations_top_factor [of G sort_values rules iteration_df task]
  ultimately show ?thesis by blast
qed

theorem top_block_saves_ten_highest_witness:
  "top_block_loop record_visit (sort_keep_ties scored_log) [] =
     (take 10 (sort_keep_ties scored_log), None) \<and>
   map iteration (take 10 (sort_keep_ties scored_log)) = [11, 10, 9, 8, 7, 6, 5, 4, 3, 2] \<and>
   map result (take 10 (sort_keep_ties scored_log)) = [11, 10, 9, 8, 7, 6, 5, 4, 3, 2] \<and>
   sorted_wrt (\<lambda>a b. result b \<le> result a) (take 10 (sort_keep_ties scored_log))"
proof -
  have p: "\<forall>xs. mset (sort_keep_ties xs) = mset xs"
    by (simp add: sort_keep_ties_perm)
  have d: "\<forall>xs. sorted_wrt (\<lambda>a b. result b \<le> result a) (sort_keep_ties xs)"
    by (simp add: sort_keep_ties_desc)
  have l: "10 \<le> length scored_log"
    by (simp add: scored_log_def)
  have r: "map result (take 10 (sort_keep_ties scored_log)) = [11, 10, 9, 8, 7, 6, 5, 4, 3, 2]"
    by (simp add: scored_log_def sort_keep_ties_def sort_key_def upto.simps)
  from top_block_saves_ten_highest [OF p d l] take_10_scored_log r show ?thesis
    by blast
qed

text \<open>
  The claim C3 fails on the code in its last part: the script asks for no stable sort,
  and a sort by descending score is free to order rows of equal score as it likes. With
  the sort that turns them round, a block of 1000 rows of equal score yields the rows
  \<open>999, 998, ..., 990\<close>, not in the order of the log.
\<close>

theorem equal_scores_order_counterexample:
  "mset (sort_turn_ties tied_log) = mset tied_log \<and>
   sorted_wrt (\<lambda>a b. result b \<le> result a) (sort_turn_ties tied_log) \<and>
   length tied_log = 1000 \<and>
   map iteration tied_log = [0..999] \<and>
   map result tied_log = replicate 1000 0 \<and>
   map iteration (fst (iterations_top_rows sort_turn_ties tied_log)) =
     [999, 998, 997, 996, 995, 994, 993, 992, 991, 990]"
proof -
  have "map iteration tied_log = [0..999]"
    by (simp add: tied_log_def o_def)
  moreover have "map result tied_log = replicate 1000 0"
    using map_replicate_const [of 0 "[0..999::int]"] by (simp add: tied_log_def o_def)
  ultimately show ?thesis
    by (simp add: sort_turn_ties_perm sort_turn_ties_desc length_tied_log
          iterations_top_rows_tied_log take_10_rev_tied_log)
qed

section \<open>The claim on failing entries\<close>

lemma save_robot_image_bad_index:
  assumes "\<exists>r\<in>set rule_sequence. int (length rules) \<le> r \<or> r < - int (length rules)"
  shows "save_robot_image G rules name rule_sequence saved = (saved, Some IndexError)"
  using assms make_robot_fails_iff [of G rule_sequence rules]
  by (simp add: save_robot_image_def)

lemma mid_indices_3:
  "map (\<lambda>p. mid_index_of p 3) percentiles = [0, 0, 0, 1, 1, 1, 1, 1, 2, 2, 2]"
  by (simp add: percentiles_eq mid_index_of_def) (simp add: float_eval)

lemma iterations_indices_3: "iterations_indices 3 = [0, 1, 2]"
  by (simp add: iterations_indices_concat arange.simps window_indices_def py_range_def upto.simps)

lemma percentiles_indices_3:
  "percentiles_indices 3 =
     [0] @ 1 # [2, 0, 1, 2, 0, 1, 2, 0, 1, 2, 0, 1, 2, 0, 1, 2, 0, 1, 2, 0, 1, 2, 0, 1, 2,
                0, 1, 2, 0, 1, 2]"
  by (simp add: percentiles_indices_concat mid_indices_3 window_indices_def py_range_def
        upto.simps)

lemma length_broken_log: "length broken_log = 3"
  by (simp add: broken_log_def)

lemma toy_robot_0_1: "make_robot_from_rule_sequence toy_grammar [0, 1] [1, 2] = Inr 3"
  by (simp add: make_robot_from_rule_sequence_def py_index_def toy_grammar_def)

lemma rule_seq_at_broken_log:
  "rule_seq_at broken_log 0 = Inr [0, 1]" "rule_seq_at broken_log 1 = Inr [5]"
  by (simp_all add: rule_seq_at_def broken_log_def)

lemma iterations_top_rows_broken_log:
  "fst (iterations_top_rows sort_keep_ties broken_log) =
     [broken_log ! 0] @ broken_log ! 1 # [broken_log ! 2]"
  by (simp add: iterations_top_rows_blocks arange.simps row_slice_def top_block_loop_record
        sort_keep_ties_def broken_log_def)

lemma broken_log_rows:
  "iteration (broken_log ! 0) = 0" "rule_seq (broken_log ! 0) = [0, 1]"
  "rule_seq (broken_log ! 1) = [5]" "rule_seq (broken_log ! 2) = [1]"
  by (simp_all add: broken_log_def)

lemma save_first_of_broken_log:
  "for_each (save_iteration toy_grammar [1, 2] broken_log) [0] [] =
     ([(Iteration_png 0, Some 3)], None)"
  "for_each (save_sorted toy_grammar [1, 2] broken_log) [0] [] =
     ([(Sorted_png 0, Some 3)], None)"
  "for_each (save_top toy_grammar [1, 2]) [broken_log ! 0] [] =
     ([(Iteration_png 0, Some 3)], None)"
  by (simp_all add: save_iteration_def save_sorted_def save_top_def rule_seq_at_broken_log
        broken_log_rows save_robot_image_def toy_robot_0_1)

lemma main_iterations_broken_log:
  "main toy_grammar sort_keep_ties [1, 2] broken_log ''FlatTerrainTask'' (Some ''iterations'') =
     ([(Iteration_png 0, Some 3)], Some IndexError)"
proof -
  have "save_iteration toy_grammar [1, 2] broken_log 1 [(Iteration_png 0, Some 3)] =
      ([(Iteration_png 0, Some 3)], Some IndexError)"
    by (simp add: save_iteration_def rule_seq_at_broken_log save_robot_image_bad_index)
  with save_first_of_broken_log(1)
  have "for_each (save_iteration toy_grammar [1, 2] broken_log) ([0] @ 1 # [2]) [] =
      ([(Iteration_png 0, Some 3)], Some IndexError)"
    by (rule for_each_stops)
  then show ?thesis
    by (simp add: main_iterations length_broken_log iterations_indices_3)
qed

text \<open>
  C4, as the code has it. No exception is caught anywhere in the script. When the rule
  sequence of a selected entry holds a rule index out of range, the IndexError of the
  builder ends the run at that entry, in each of the three types that read the log: the
  files of the entries before it are saved, no file is saved for it, and none of the
  entries after it is processed.
\<close>

theorem failing_entry_ends_run:
  assumes bad: "\<exists>r\<in>set rule_sequence. int (length rules) \<le> r \<or> r < - int (length rules)"
  shows
   "(iterations_indices (int (length iteration_df)) = before @ index # after \<and>
     for_each (save_iteration G rules iteration_df) before [] = (saved, None) \<and>
     rule_seq_at iteration_df index = Inr rule_sequence \<longrightarrow>
       main G sort_values rules iteration_df task (Some ''iterations'') =
         (saved, Some IndexError)) \<and>
    (percentiles_indices (int (length iteration_df)) = before @ index # after \<and>
     for_each (save_sorted G rules iteration_df) before [] = (saved, None) \<and>
     rule_seq_at iteration_df index = Inr rule_sequence \<longrightarrow>
       main G sort_values rules iteration_df task (Some ''percentiles'') =
         (saved, Some IndexError)) \<and>
    (fst (iterations_top_rows sort_values iteration_df) = rows_before @ row # rows_after \<and>
     for_each (save_top G rules) rows_before [] = (saved, None) \<and>
     rule_seq row = rule_sequence \<longrightarrow>
       main G sort_values rules iteration_df task (Some ''iterations_top'') =
         (saved, Some IndexError))"
proof -
  note fail = save_robot_image_bad_index [OF bad]
  have a: "main G sort_values rules iteration_df task (Some ''iterations'') =
         (saved, Some IndexError)"
    if "iterations_indices (int (length iteration_df)) = before @ index # after"
      "for_each (save_iteration G rules iteration_df) before [] = (saved, None)"
      "rule_seq_at iteration_df index = Inr rule_sequence"
  proof -
    have "save_iteration G rules iteration_df index saved = (saved, Some IndexError)"
      using that(3) by (simp add: save_iteration_def fail)
    with that(2) show ?thesis
      unfolding main_iterations that(1) by (rule for_each_stops)
  qed
  have b: "main G sort_values rules iteration_df task (Some ''percentiles'') =
         (saved, Some IndexError)"
    if "percentiles_indices (int (length iteration_df)) = before @ index # after"
      "for_each (save_sorted G rules iteration_df) before [] = (saved, None)"
      "rule_seq_at iteration_df index = Inr rule_sequence"
  proof -
    have "save_sorted G rules iteration_df index saved = (saved, Some IndexError)"
      using that(3) by (simp add: save_sorted_def fail)
    with that(2) show ?thesis
      unfolding main_percentiles that(1) by (rule for_each_stops)
  qed
  have c: "main G sort_values rules iteration_df task (Some ''iterations_top'') =
         (saved, Some IndexError)"
    if "fst (iterations_top_rows sort_values iteration_df) = rows_before @ row # rows_after"
      "for_each (save_top G rules) rows_before [] = (saved, None)"
      "rule_seq row = rule_sequence"
  proof -
    have "save_top G rules row saved = (saved, Some IndexError)"
      using that(3) by (simp add: save_top_def fail)
    with that(2) have "for_each (save_top G rules) (rows_before @ row # rows_after) [] =
        (saved, Some IndexError)"
      by (rule for_each_stops)
    then show ?thesis
      by (simp add: main_iterations_top_factor that(1))
  qed
  from a b c show ?thesis by blast
qed

theorem failing_entry_ends_run_witness:
  "main toy_grammar sort_keep_ties [1, 2] broken_log ''FlatTerrainTask'' (Some ''iterations'') =
     ([(Iteration_png 0, Some 3)], Some IndexError) \<and>
   main toy_grammar sort_keep_ties [1, 2] broken_log ''FlatTerrainTask'' (Some ''percentiles'') =
     ([(Sorted_png 0, Some 3)], Some IndexError) \<and>
   main toy_grammar sort_keep_ties [1, 2] broken_log ''FlatTerrainTask'' (Some ''iterations_top'') =
     ([(Iteration_png 0, Some 3)], Some IndexError)"
proof -
  have bad: "\<exists>r\<in>set [5 :: int]. int (length [1, 2 :: int]) \<le> r \<or> r < - int (length [1, 2 :: int])"
    by simp
  have i: "iterations_indices (int (length broken_log)) = [0] @ 1 # [2]"
    by (simp add: length_broken_log iterations_indices_3)
  have p: "percentiles_indices (int (length broken_log)) =
     [0] @ 1 # [2, 0, 1, 2, 0, 1, 2, 0, 1, 2, 0, 1, 2, 0, 1, 2, 0, 1, 2, 0, 1, 2, 0, 1, 2,
                0, 1, 2, 0, 1, 2]"
    by (simp only: length_broken_log of_nat_numeral percentiles_indices_3)
  note t = iterations_top_rows_broken_log
  note inst = failing_entry_ends_run [OF bad, where iteration_df = broken_log and G = toy_grammar
      and sort_values = sort_keep_ties and task = "''FlatTerrainTask''" and before = "[0]"
      and index = 1 and rows_before = "[broken_log ! 0]" and row = "broken_log ! 1"
      and rows_after = "[broken_log ! 2]"]
  from inst [where after = "[2]" and saved = "[(Iteration_png 0, Some 3)]"]
    i save_first_of_broken_log(1) rule_seq_at_broken_log(2)
  have a: "main toy_grammar sort_keep_ties [1, 2] broken_log ''FlatTerrainTask''
      (Some ''iterations'') = ([(Iteration_png 0, Some 3)], Some IndexError)"
    by blast
  from inst [where saved = "[(Sorted_png 0, Some 3)]"]
    p save_first_of_broken_log(2) rule_seq_at_broken_log(2)
  have b: "main toy_grammar sort_keep_ties [1, 2] broken_log ''FlatTerrainTask''
      (Some ''percentiles'') = ([(Sorted_png 0, Some 3)], Some IndexError)"
    by blast
  from inst [where saved = "[(Iteration_png 0, Some 3)]"]
    t save_first_of_broken_log(3) broken_log_rows(3)
  have c: "main toy_grammar sort_keep_ties [1, 2] broken_log ''FlatTerrainTask''
      (Some ''iterations_top'') = ([(Iteration_png 0, Some 3)], Some IndexError)"
    by blast
  from a b c show ?thesis by blast
qed

text \<open>
  The claim C4 fails on the code: in a log of three rows whose second row holds the rule
  index 5 for two rules, the run ends with IndexError after the file of the first row;
  the third row, of which a robot can be built, gets no file.
\<close>

theorem failing_entry_counterexample:
  "rule_seq_at broken_log 1 = Inr [5] \<and>
   make_robot_from_rule_sequence toy_grammar [5] [1, 2] = Inl IndexError \<and>
   make_robot_from_rule_sequence toy_grammar (rule_seq (broken_log ! 2)) [1, 2] = Inr 3 \<and>
   main toy_grammar sort_keep_ties [1, 2] broken_log ''FlatTerrainTask'' (Some ''iterations'') =
     ([(Iteration_png 0, Some 3)], Some IndexError)"
  by (simp add: rule_seq_at_broken_log broken_log_rows toy_robots main_iterations_broken_log
        make_robot_fails_iff)

end
